theory Spec2Isabelle
  imports Main "HOL-Library.Sublist"
begin

section \<open>Notifications of \<^verbatim>\<open>src/utils/interface.py\<close>\<close>

text \<open>
  A Python string is modelled as a \<^typ>\<open>string\<close>; a \<^typ>\<open>char\<close> stands for one code point
  below 256, where the only decimal digits are \<open>0\<close> to \<open>9\<close>. A keyword mapping
  (\<^verbatim>\<open>**params\<close>) is a map from the keyword to the string value of the argument, that is
  what \<^verbatim>\<open>format(value, "")\<close> gives.
\<close>

subsection \<open>Event types and exceptions\<close>

datatype EventType =
  MESSAGE | START | REGISTERED | SHUTDOWN | CRASH | PLAYER_JOIN | PLAYER_LEAVE | COMMAND

fun EventType_value :: "EventType \<Rightarrow> string" where
  "EventType_value MESSAGE = ''message''"
| "EventType_value START = ''start''"
| "EventType_value REGISTERED = ''registered''"
| "EventType_value SHUTDOWN = ''shutdown''"
| "EventType_value CRASH = ''crash''"
| "EventType_value PLAYER_JOIN = ''player_join''"
| "EventType_value PLAYER_LEAVE = ''player_leave''"
| "EventType_value COMMAND = ''command''"

text \<open>The exceptions of Python that the modelled code can raise.\<close>

datatype pyerror = KeyError | ValueError | TypeError | AttributeError | IndexError | OtherError

text \<open>
  The outcome of a call that acts on some state \<open>'s\<close> (a sink, a queue): it returns, or it
  raises; the state survives in both cases.
\<close>

datatype 's outcome = Returned 's | Raised pyerror 's

type_synonym params = "string \<rightharpoonup> string"

subsection \<open>\<^verbatim>\<open>str.format_map\<close>\<close>

text \<open>
  \<^verbatim>\<open>safeformat\<close> calls the builtin \<^verbatim>\<open>str.format_map\<close>. Its scanner is modelled after CPython's
  \<^verbatim>\<open>MarkupIterator_next\<close> and \<^verbatim>\<open>parse_field\<close>: text up to a brace is copied, a doubled brace is
  one literal brace, a single \<^verbatim>\<open>}\<close> and a \<^verbatim>\<open>{\<close> at the end are a \<^verbatim>\<open>ValueError\<close>, and after a
  \<^verbatim>\<open>{\<close> comes a replacement field: a field name up to \<^verbatim>\<open>}\<close>, \<^verbatim>\<open>!\<close> or \<^verbatim>\<open>:\<close>, an optional
  conversion character, an optional format spec with nested braces counted.

  The field name is split at its first \<^verbatim>\<open>.\<close> or \<^verbatim>\<open>[\<close>. An empty or all-digit first part is a
  positional field, which \<^verbatim>\<open>format_map\<close> refuses with \<^verbatim>\<open>ValueError\<close>. Otherwise the first part
  is looked up in the mapping. A plain field (nothing after the first part, no conversion,
  empty format spec) is rendered as the string value found. Everything else (attribute and
  index access, \<^verbatim>\<open>!r\<close>, format specs) goes through Python's object protocol, which is not
  part of this repository: it is the parameter \<open>R\<close> of the model, given the first part, the
  object's string value, the rest of the field name, the conversion and the format spec.
\<close>

type_synonym field_renderer =
  "string \<Rightarrow> string \<Rightarrow> string \<Rightarrow> char option \<Rightarrow> string \<Rightarrow> pyerror + string"

datatype scan_mode =
    Text
  | Name string
  | Bracket string
  | Conv string
  | ConvEnd string char
  | Spec string "char option" nat string

definition emit :: "string \<Rightarrow> pyerror + string \<Rightarrow> pyerror + string" where
  "emit s r = (case r of Inl e \<Rightarrow> Inl e | Inr out \<Rightarrow> Inr (s @ out))"

definition is_digit :: "char \<Rightarrow> bool" where
  "is_digit c = (c \<in> set ''0123456789'')"

definition field_first :: "string \<Rightarrow> string" where
  "field_first fname = takeWhile (\<lambda>c. c \<noteq> CHR ''.'' \<and> c \<noteq> CHR ''['') fname"

definition field_rest :: "string \<Rightarrow> string" where
  "field_rest fname = dropWhile (\<lambda>c. c \<noteq> CHR ''.'' \<and> c \<noteq> CHR ''['') fname"

definition render_field ::
  "field_renderer \<Rightarrow> (string \<Rightarrow> pyerror + string) \<Rightarrow> string \<Rightarrow> char option \<Rightarrow> string
    \<Rightarrow> pyerror + string" where
  "render_field R getitem fname conv spec =
     (let first = field_first fname; rest = field_rest fname in
      if first = [] \<or> list_all is_digit first then Inl ValueError
      else (case getitem first of
              Inl e \<Rightarrow> Inl e
            | Inr obj \<Rightarrow>
                if rest = [] \<and> conv = None \<and> spec = [] then Inr obj
                else R first obj rest conv spec))"

fun format_scan ::
  "field_renderer \<Rightarrow> (string \<Rightarrow> pyerror + string) \<Rightarrow> scan_mode \<Rightarrow> string \<Rightarrow> pyerror + string"
where
  "format_scan R g Text [] = Inr []"
| "format_scan R g m [] = Inl ValueError"
| "format_scan R g Text (c # cs) =
     (if c = CHR ''{'' then
        (case cs of
           [] \<Rightarrow> Inl ValueError
         | c' # cs' \<Rightarrow>
             if c' = CHR ''{'' then emit ''{'' (format_scan R g Text cs')
             else format_scan R g (Name []) cs)
      else if c = CHR ''}'' then
        (case cs of
           [] \<Rightarrow> Inl ValueError
         | c' # cs' \<Rightarrow>
             if c' = CHR ''}'' then emit ''}'' (format_scan R g Text cs')
             else Inl ValueError)
      else emit [c] (format_scan R g Text cs))"
| "format_scan R g (Name acc) (c # cs) =
     (if c = CHR ''{'' then Inl ValueError
      else if c = CHR ''['' then format_scan R g (Bracket (acc @ [c])) cs
      else if c = CHR ''}'' then
        (case render_field R g acc None [] of
           Inl e \<Rightarrow> Inl e
         | Inr v \<Rightarrow> emit v (format_scan R g Text cs))
      else if c = CHR '':'' then format_scan R g (Spec acc None 1 []) cs
      else if c = CHR ''!'' then format_scan R g (Conv acc) cs
      else format_scan R g (Name (acc @ [c])) cs)"
| "format_scan R g (Bracket acc) (c # cs) =
     (if c = CHR '']'' then format_scan R g (Name (acc @ [c])) cs
      else format_scan R g (Bracket (acc @ [c])) cs)"
| "format_scan R g (Conv acc) (c # cs) = format_scan R g (ConvEnd acc c) cs"
| "format_scan R g (ConvEnd acc cv) (c # cs) =
     (if c = CHR ''}'' then
        (case render_field R g acc (Some cv) [] of
           Inl e \<Rightarrow> Inl e
         | Inr v \<Rightarrow> emit v (format_scan R g Text cs))
      else if c = CHR '':'' then format_scan R g (Spec acc (Some cv) 1 []) cs
      else Inl ValueError)"
| "format_scan R g (Spec acc cv depth sp) (c # cs) =
     (if c = CHR ''{'' then format_scan R g (Spec acc cv (depth + 1) (sp @ [c])) cs
      else if c = CHR ''}'' then
        (if depth = 1 then
           (case render_field R g acc cv sp of
              Inl e \<Rightarrow> Inl e
            | Inr v \<Rightarrow> emit v (format_scan R g Text cs))
         else format_scan R g (Spec acc cv (depth - 1) (sp @ [c])) cs)
      else format_scan R g (Spec acc cv depth (sp @ [c])) cs)"

definition format_map ::
  "field_renderer \<Rightarrow> string \<Rightarrow> (string \<Rightarrow> pyerror + string) \<Rightarrow> pyerror + string" where
  "format_map R str getitem = format_scan R getitem Text str"

subsection \<open>\<^verbatim>\<open>safeformat\<close>\<close>

text \<open>
  \<^verbatim>\<open>SafeDict.__missing__\<close> gives the key back in braces, so a lookup in a \<^verbatim>\<open>SafeDict\<close> never
  raises \<^verbatim>\<open>KeyError\<close>.
\<close>

definition SafeDict_missing :: "string \<Rightarrow> string" where
  "SafeDict_missing key = ''{'' @ key @ ''}''"

definition SafeDict_getitem :: "params \<Rightarrow> string \<Rightarrow> pyerror + string" where
  "SafeDict_getitem kwargs key =
     (case kwargs key of Some v \<Rightarrow> Inr v | None \<Rightarrow> Inr (SafeDict_missing key))"

text \<open>
  \<^verbatim>\<open>def safeformat(str, **kwargs)\<close>: the template is bound to the parameter \<^verbatim>\<open>str\<close>, so a
  keyword \<^verbatim>\<open>str\<close> among the keyword arguments is a second value for it, and the call raises
  \<^verbatim>\<open>TypeError\<close> before the body runs.
\<close>

definition safeformat :: "field_renderer \<Rightarrow> string \<Rightarrow> params \<Rightarrow> pyerror + string" where
  "safeformat R str kwargs =
     (if kwargs ''str'' \<noteq> None then Inl TypeError
      else format_map R str (SafeDict_getitem kwargs))"

text \<open>
  A renderer for the fields that are not plain, used where a concrete one is needed: it
  refuses them all.
\<close>

definition no_object_protocol :: field_renderer where
  "no_object_protocol first obj rest conv spec = Inl OtherError"

subsection \<open>\<^verbatim>\<open>NotificationHandler\<close>\<close>

definition DEFAULT_EVENT_FORMATS :: "EventType \<rightharpoonup> string" where
  "DEFAULT_EVENT_FORMATS =
     [MESSAGE \<mapsto> ''[{name}] {message}'',
      START \<mapsto> ''[{name}] Server started!'',
      REGISTERED \<mapsto> ''[{name}] Server registered with Playfab!'',
      SHUTDOWN \<mapsto> ''[{name}] Server shutdown!'',
      CRASH \<mapsto> ''[{name}] Server crashed!'',
      PLAYER_JOIN \<mapsto> ''[{name}] Player '{player}' joined the game'',
      PLAYER_LEAVE \<mapsto> ''[{name}] Player '{player}' left the game'',
      COMMAND \<mapsto> ''[{name}] Command executed: {command}'']"

record NotificationHandler =
  name :: string
  whitelist :: "EventType set"
  formats :: "EventType \<rightharpoonup> string"

text \<open>
  \<^verbatim>\<open>_send_message\<close> is the method a subclass overrides: the sink. It is the parameter \<open>sink\<close>
  of \<^verbatim>\<open>send_event\<close>, acting on a state \<open>'s\<close>. The base class prints the message; its state is
  the lines printed so far.
\<close>

type_synonym 's sink = "EventType \<Rightarrow> string \<Rightarrow> 's \<Rightarrow> 's outcome"

definition NotificationHandler_send_message :: "string list sink" where
  "NotificationHandler_send_message event_type message out = Returned (out @ [message])"

text \<open>A sink that records each invocation with its arguments.\<close>

definition recording_sink :: "(EventType \<times> string) list sink" where
  "recording_sink event_type message calls = Returned (calls @ [(event_type, message)])"

text \<open>
  \<^verbatim>\<open>NotificationHandler.send_event\<close>. The template is looked up while the arguments of the
  call of \<^verbatim>\<open>safeformat\<close> are evaluated, so a missing template raises \<^verbatim>\<open>KeyError\<close> before
  anything is formatted. The method assigns no attribute of \<^verbatim>\<open>self\<close>: only the sink's state
  is returned.
\<close>

definition send_event ::
  "field_renderer \<Rightarrow> 's sink \<Rightarrow> NotificationHandler \<Rightarrow> EventType \<Rightarrow> params \<Rightarrow> 's \<Rightarrow> 's outcome"
where
  "send_event R sink self event_type params s =
     (if event_type \<in> whitelist self then
        (let params' = params(''name'' \<mapsto> name self) in
         case formats self event_type of
           None \<Rightarrow> Raised KeyError s
         | Some template \<Rightarrow>
             (case safeformat R template params' of
                Inl e \<Rightarrow> Raised e s
              | Inr message \<Rightarrow> sink event_type message s))
      else Returned s)"

text \<open>
  \<open>params\<close> is the dict the body of \<^verbatim>\<open>send_event\<close> receives. A call without keyword arguments
  gives \<open>no_params\<close>. The default whitelist is \<^verbatim>\<open>set([e for e in EventType])\<close>.
\<close>

definition no_params :: params where
  "no_params = Map.empty"

definition default_whitelist :: "EventType set" where
  "default_whitelist =
     set [MESSAGE, START, REGISTERED, SHUTDOWN, CRASH, PLAYER_JOIN, PLAYER_LEAVE, COMMAND]"

subsection \<open>Handler objects and default arguments\<close>

text \<open>
  The attributes \<^verbatim>\<open>whitelist\<close> and \<^verbatim>\<open>formats\<close> of a handler object are references to a set
  and a dict that may be shared, so they are kept in a store: \<open>sets\<close> and \<open>dicts\<close> give the
  object behind each reference. A handler object holds its name and the two references;
  \<open>load\<close> reads the attributes as \<^verbatim>\<open>send_event\<close> sees them.

  When the module is loaded, the dict \<^verbatim>\<open>DEFAULT_EVENT_FORMATS\<close> is created, then the default
  arguments of \<^verbatim>\<open>NotificationHandler.__init__\<close> are evaluated, once: a new set of all event
  types, and the dict \<^verbatim>\<open>DEFAULT_EVENT_FORMATS\<close>; then those of
  \<^verbatim>\<open>QueuedNotificationHandler.__init__\<close>, once: another new set of all event types, and the
  same dict. These are three objects, at three references.
\<close>

type_synonym ref = nat

record heap =
  sets :: "ref \<Rightarrow> EventType set"
  dicts :: "ref \<Rightarrow> (EventType \<rightharpoonup> string)"

record NotificationHandler_obj =
  name_of :: string
  whitelist_ref :: ref
  formats_ref :: ref

definition load :: "heap \<Rightarrow> NotificationHandler_obj \<Rightarrow> NotificationHandler" where
  "load h obj =
     \<lparr>name = name_of obj, whitelist = sets h (whitelist_ref obj),
      formats = dicts h (formats_ref obj)\<rparr>"

definition DEFAULT_EVENT_FORMATS_ref :: ref where
  "DEFAULT_EVENT_FORMATS_ref = 0"

definition NotificationHandler_default_whitelist :: ref where
  "NotificationHandler_default_whitelist = 1"

definition QueuedNotificationHandler_default_whitelist :: ref where
  "QueuedNotificationHandler_default_whitelist = 2"

definition module_heap :: heap where
  "module_heap =
     \<lparr>sets = (\<lambda>r. {})
        (NotificationHandler_default_whitelist := default_whitelist,
         QueuedNotificationHandler_default_whitelist := default_whitelist),
      dicts = (\<lambda>r. Map.empty)(DEFAULT_EVENT_FORMATS_ref := DEFAULT_EVENT_FORMATS)\<rparr>"

text \<open>The constructors; \<open>None\<close> is an argument left out, for which the default is taken.\<close>

definition NotificationHandler_init ::
  "string option \<Rightarrow> ref option \<Rightarrow> ref option \<Rightarrow> NotificationHandler_obj" where
  "NotificationHandler_init name' event_whitelist event_formats =
     \<lparr>name_of = (case name' of None \<Rightarrow> ''Server'' | Some n \<Rightarrow> n),
      whitelist_ref =
        (case event_whitelist of None \<Rightarrow> NotificationHandler_default_whitelist | Some r \<Rightarrow> r),
      formats_ref =
        (case event_formats of None \<Rightarrow> DEFAULT_EVENT_FORMATS_ref | Some r \<Rightarrow> r)\<rparr>"

text \<open>
  \<^verbatim>\<open>QueuedNotificationHandler.__init__\<close> takes its own defaults and passes all three
  arguments on to \<^verbatim>\<open>super().__init__\<close>. (It also starts the worker thread, modelled below.)
\<close>

definition QueuedNotificationHandler_init ::
  "string option \<Rightarrow> ref option \<Rightarrow> ref option \<Rightarrow> NotificationHandler_obj" where
  "QueuedNotificationHandler_init name' event_whitelist event_formats =
     NotificationHandler_init
       (Some (case name' of None \<Rightarrow> ''Server'' | Some n \<Rightarrow> n))
       (Some (case event_whitelist of
                None \<Rightarrow> QueuedNotificationHandler_default_whitelist | Some r \<Rightarrow> r))
       (Some (case event_formats of None \<Rightarrow> DEFAULT_EVENT_FORMATS_ref | Some r \<Rightarrow> r))"

text \<open>
  Mutations of a set and of a dict through a reference: \<^verbatim>\<open>s.discard(e)\<close>, \<^verbatim>\<open>s.add(e)\<close> and
  \<^verbatim>\<open>d[e] = template\<close>.
\<close>

definition set_discard :: "ref \<Rightarrow> EventType \<Rightarrow> heap \<Rightarrow> heap" where
  "set_discard r e h = h\<lparr>sets := (sets h)(r := sets h r - {e})\<rparr>"

definition set_add :: "ref \<Rightarrow> EventType \<Rightarrow> heap \<Rightarrow> heap" where
  "set_add r e h = h\<lparr>sets := (sets h)(r := insert e (sets h r))\<rparr>"

definition dict_setitem :: "ref \<Rightarrow> EventType \<Rightarrow> string \<Rightarrow> heap \<Rightarrow> heap" where
  "dict_setitem r e template h = h\<lparr>dicts := (dicts h)(r := (dicts h r)(e \<mapsto> template))\<rparr>"

subsection \<open>\<^verbatim>\<open>NotificationManager\<close>\<close>

text \<open>
  The manager keeps a list of handlers and calls \<^verbatim>\<open>handler.send_event\<close> on each. What a
  handler's \<^verbatim>\<open>send_event\<close> does is the parameter \<open>hsend\<close>, acting on a state \<open>'s\<close> shared by
  the handlers; a handler that raises ends the loop, as the manager catches nothing.
\<close>

record 'h NotificationManager =
  handlers :: "'h list"

type_synonym ('h, 's) handler_send = "'h \<Rightarrow> EventType \<Rightarrow> params \<Rightarrow> 's \<Rightarrow> 's outcome"

definition NotificationManager_init :: "'h NotificationManager" where
  "NotificationManager_init = \<lparr>handlers = []\<rparr>"

definition add_handler :: "'h NotificationManager \<Rightarrow> 'h \<Rightarrow> 'h NotificationManager" where
  "add_handler self handler = self\<lparr>handlers := handlers self @ [handler]\<rparr>"

definition clear :: "'h NotificationManager \<Rightarrow> 'h NotificationManager" where
  "clear self = self\<lparr>handlers := []\<rparr>"

fun for_handlers :: "('h, 's) handler_send \<Rightarrow> 'h list \<Rightarrow> EventType \<Rightarrow> params \<Rightarrow> 's \<Rightarrow> 's outcome"
where
  "for_handlers hsend [] event_type params s = Returned s"
| "for_handlers hsend (handler # rest) event_type params s =
     (case hsend handler event_type params s of
        Returned s' \<Rightarrow> for_handlers hsend rest event_type params s'
      | Raised e s' \<Rightarrow> Raised e s')"

definition NotificationManager_send_event ::
  "('h, 's) handler_send \<Rightarrow> 'h NotificationManager \<Rightarrow> EventType \<Rightarrow> params \<Rightarrow> 's \<Rightarrow> 's outcome"
where
  "NotificationManager_send_event hsend self event_type params s =
     for_handlers hsend (handlers self) event_type params s"

text \<open>
  To see which handlers were called, and in which order, \<open>logged hsend\<close> is \<open>hsend\<close> that
  also appends the handler called to a log, whether the call returns or raises.
\<close>

definition logged :: "('h, 's) handler_send \<Rightarrow> ('h, 'h list \<times> 's) handler_send" where
  "logged hsend handler event_type params ls =
     (case hsend handler event_type params (snd ls) of
        Returned s' \<Rightarrow> Returned (fst ls @ [handler], s')
      | Raised e s' \<Rightarrow> Raised e (fst ls @ [handler], s'))"

subsection \<open>\<^verbatim>\<open>QueuedNotificationHandler\<close> and its worker thread\<close>

text \<open>
  The state of a \<^verbatim>\<open>NotificationThread\<close>: the queue, the wake-up flag, and where the worker
  stands in \<^verbatim>\<open>run\<close>. The threads interleave at the operations on the queue and the flag,
  which are atomic (\<^verbatim>\<open>queue.Queue\<close> and \<^verbatim>\<open>threading.Event\<close> lock inside). A producer in
  \<^verbatim>\<open>add_event\<close> does \<^verbatim>\<open>put\<close>, then \<^verbatim>\<open>set\<close>; \<open>pending_set\<close> counts the producers between the
  two. The worker, the only thread that runs \<^verbatim>\<open>run\<close>, is at the test of \<^verbatim>\<open>empty()\<close>, at
  \<^verbatim>\<open>get()\<close>, about to call the callback on an event, inside the callback, at
  \<^verbatim>\<open>wait(timeout=10)\<close>, at \<^verbatim>\<open>clear()\<close>, or terminated by an exception that left \<^verbatim>\<open>run\<close>.

  The callback is \<^verbatim>\<open>_handle_message\<close>, the parameter \<open>cb\<close>, acting on \<open>sink_state\<close>. The
  \<open>trace\<close> is a history of the callback's invocations: when one begins, and when it returns
  or raises. Time is not modelled: \<^verbatim>\<open>wait\<close> returns when the flag is set or after the
  timeout, so the worker can always go on from it.
\<close>

type_synonym event = "EventType \<times> string"

datatype worker_pc =
  AtCheck | AtGet | AtCall event | InCall event | AtWait | AtClear | Terminated pyerror

datatype delivery = Begin event | End event | Fail event pyerror

record 's NotificationThread =
  event_queue :: "event list"
  wakeup_event :: bool
  pending_set :: nat
  worker :: worker_pc
  sink_state :: 's
  trace :: "delivery list"

definition NotificationThread_init :: "'s \<Rightarrow> 's NotificationThread" where
  "NotificationThread_init s =
     \<lparr>event_queue = [], wakeup_event = False, pending_set = 0, worker = AtCheck,
      sink_state = s, trace = []\<rparr>"

definition put :: "event \<Rightarrow> 's NotificationThread \<Rightarrow> 's NotificationThread" where
  "put e t = t\<lparr>event_queue := event_queue t @ [e], pending_set := Suc (pending_set t)\<rparr>"

definition set_wakeup :: "'s NotificationThread \<Rightarrow> 's NotificationThread" where
  "set_wakeup t =
     (if pending_set t = 0 then t
      else t\<lparr>wakeup_event := True, pending_set := pending_set t - 1\<rparr>)"

definition add_event :: "event \<Rightarrow> 's NotificationThread \<Rightarrow> 's NotificationThread" where
  "add_event e t = set_wakeup (put e t)"

text \<open>
  One step of the worker in \<^verbatim>\<open>NotificationThread.run\<close>. A \<^verbatim>\<open>get()\<close> on an empty queue blocks.
\<close>

definition run_step :: "'s sink \<Rightarrow> 's NotificationThread \<Rightarrow> 's NotificationThread" where
  "run_step cb t =
     (case worker t of
        AtCheck \<Rightarrow> if event_queue t \<noteq> [] then t\<lparr>worker := AtGet\<rparr> else t\<lparr>worker := AtWait\<rparr>
      | AtGet \<Rightarrow>
          (case event_queue t of
             [] \<Rightarrow> t
           | e # q \<Rightarrow> t\<lparr>event_queue := q, worker := AtCall e\<rparr>)
      | AtCall e \<Rightarrow> t\<lparr>worker := InCall e, trace := trace t @ [Begin e]\<rparr>
      | InCall e \<Rightarrow>
          (case cb (fst e) (snd e) (sink_state t) of
             Returned s' \<Rightarrow> t\<lparr>worker := AtCheck, sink_state := s', trace := trace t @ [End e]\<rparr>
           | Raised x s' \<Rightarrow>
               t\<lparr>worker := Terminated x, sink_state := s', trace := trace t @ [Fail e x]\<rparr>)
      | AtWait \<Rightarrow> t\<lparr>worker := AtClear\<rparr>
      | AtClear \<Rightarrow> t\<lparr>wakeup_event := False, worker := AtCheck\<rparr>
      | Terminated x \<Rightarrow> t)"

text \<open>
  A schedule is the order in which the threads take their atomic steps: a producer puts an
  event, a producer sets the flag, the worker takes a step. \<open>execute\<close> takes the steps of a
  schedule, one after the other.
\<close>

datatype action = Put event | SetWakeup | Work

fun step :: "'s sink \<Rightarrow> 's NotificationThread \<Rightarrow> action \<Rightarrow> 's NotificationThread" where
  "step cb t (Put e) = put e t"
| "step cb t SetWakeup = set_wakeup t"
| "step cb t Work = run_step cb t"

definition execute :: "'s sink \<Rightarrow> action list \<Rightarrow> 's NotificationThread \<Rightarrow> 's NotificationThread" where
  "execute cb sched t = foldl (step cb) t sched"

fun puts :: "action list \<Rightarrow> event list" where
  "puts [] = []"
| "puts (Put e # sched) = e # puts sched"
| "puts (a # sched) = puts sched"

text \<open>The events on which the callback was invoked, in the order of the invocations.\<close>

fun begun :: "delivery list \<Rightarrow> event list" where
  "begun [] = []"
| "begun (Begin e # tr) = e # begun tr"
| "begun (d # tr) = begun tr"

text \<open>
  Reading a trace from the left: no invocation runs, one runs, or the worker has stopped;
  \<open>Overlap\<close> is reached when an invocation begins while another runs, or when one ends that
  does not run. A trace is serial when it never reaches \<open>Overlap\<close>.
\<close>

datatype call_state = Idle | Running event | Stopped | Overlap

fun call_step :: "call_state \<Rightarrow> delivery \<Rightarrow> call_state" where
  "call_step Idle (Begin e) = Running e"
| "call_step (Running e) (End e') = (if e = e' then Idle else Overlap)"
| "call_step (Running e) (Fail e' x) = (if e = e' then Stopped else Overlap)"
| "call_step c d = Overlap"

definition call_state_of :: "delivery list \<Rightarrow> call_state" where
  "call_state_of tr = foldl call_step Idle tr"

definition serial :: "delivery list \<Rightarrow> bool" where
  "serial tr = (call_state_of tr \<noteq> Overlap)"

fun deliveries :: "event list \<Rightarrow> delivery list" where
  "deliveries [] = []"
| "deliveries (e # es) = Begin e # End e # deliveries es"

text \<open>
  What the invocations do to the sink. \<open>deliver\<close> calls the callback on the events of a list,
  one after the other, each on the state the one before has left, and stops at the first
  that raises. \<open>replay\<close> checks a trace against the callback from a given state of the
  sink: each invocation that the trace says has returned must return when the callback is
  called on that event in the state reached so far, each that it says has raised must
  raise that exception; the result is the state of the sink after them, or \<open>None\<close> when
  the trace is not what the callback does.
\<close>

fun deliver :: "'s sink \<Rightarrow> event list \<Rightarrow> 's \<Rightarrow> 's outcome" where
  "deliver cb [] s = Returned s"
| "deliver cb (e # es) s =
     (case cb (fst e) (snd e) s of
        Returned s' \<Rightarrow> deliver cb es s'
      | Raised x s' \<Rightarrow> Raised x s')"

fun replay :: "'s sink \<Rightarrow> delivery list \<Rightarrow> 's \<Rightarrow> 's option" where
  "replay cb [] s = Some s"
| "replay cb (Begin e # tr) s = replay cb tr s"
| "replay cb (End e # tr) s =
     (case cb (fst e) (snd e) s of
        Returned s' \<Rightarrow> replay cb tr s'
      | Raised x s' \<Rightarrow> None)"
| "replay cb (Fail e x # tr) s =
     (case cb (fst e) (snd e) s of
        Returned s' \<Rightarrow> None
      | Raised y s' \<Rightarrow> if x = y then replay cb tr s' else None)"

text \<open>
  The event the worker has taken from the queue and not yet passed to the callback; the
  state of the invocations that goes with each place of the worker; the number of steps the
  worker needs to empty the queue, and the states from which it can.
\<close>

fun in_hand :: "worker_pc \<Rightarrow> event list" where
  "in_hand (AtCall e) = [e]"
| "in_hand pc = []"

fun pc_call_state :: "worker_pc \<Rightarrow> call_state" where
  "pc_call_state (InCall e) = Running e"
| "pc_call_state (Terminated x) = Stopped"
| "pc_call_state pc = Idle"

definition steps_to_drain :: "'s NotificationThread \<Rightarrow> nat" where
  "steps_to_drain t =
     (case worker t of
        AtCheck \<Rightarrow> 4 * length (event_queue t)
      | AtGet \<Rightarrow> 4 * length (event_queue t) - 1
      | AtCall e \<Rightarrow> 4 * length (event_queue t) + 2
      | InCall e \<Rightarrow> 4 * length (event_queue t) + 1
      | AtWait \<Rightarrow> 4 * length (event_queue t) + 2
      | AtClear \<Rightarrow> 4 * length (event_queue t) + 1
      | Terminated x \<Rightarrow> 0)"

definition can_drain :: "'s NotificationThread \<Rightarrow> bool" where
  "can_drain t =
     (case worker t of
        Terminated x \<Rightarrow> False
      | AtGet \<Rightarrow> event_queue t \<noteq> []
      | _ \<Rightarrow> True)"

text \<open>
  The sink of the queued handler puts the event on the queue and sets the flag; the base
  \<^verbatim>\<open>_handle_message\<close> sleeps and prints the message; and, as an example of an override that
  can fail, a \<^verbatim>\<open>_handle_message\<close> that raises on a \<^verbatim>\<open>CRASH\<close> event.
\<close>

definition QueuedNotificationHandler_send_message :: "'s NotificationThread sink" where
  "QueuedNotificationHandler_send_message event_type message t =
     Returned (add_event (event_type, message) t)"

definition QueuedNotificationHandler_handle_message :: "string list sink" where
  "QueuedNotificationHandler_handle_message event_type message out = Returned (out @ [message])"

definition raising_handle_message :: "string list sink" where
  "raising_handle_message event_type message out =
     (if event_type = CRASH then Raised OtherError out else Returned (out @ [message]))"

subsection \<open>Templates of literal text and plain fields\<close>

text \<open>
  The templates the formatter is specified on: a sequence of literal text, in which a brace
  is written twice, and of plain replacement fields \<^verbatim>\<open>{key}\<close>. A key is valid when it is
  not empty, not a number, and has none of the characters that end or structure a field
  name. \<open>expand\<close> is the result the specification describes: the value for a key that is
  present, the field itself, braces included, for a key that is absent.
\<close>

datatype template_item = Lit string | Field string

definition escape_braces :: "string \<Rightarrow> string" where
  "escape_braces s =
     concat (map (\<lambda>c. if c = CHR ''{'' \<or> c = CHR ''}'' then [c, c] else [c]) s)"

fun item_text :: "template_item \<Rightarrow> string" where
  "item_text (Lit s) = escape_braces s"
| "item_text (Field k) = ''{'' @ k @ ''}''"

definition template_of :: "template_item list \<Rightarrow> string" where
  "template_of items = concat (map item_text items)"

definition plain_char :: "char \<Rightarrow> bool" where
  "plain_char c = (c \<notin> set ''{}[.:!'')"

definition valid_key :: "string \<Rightarrow> bool" where
  "valid_key k = (k \<noteq> [] \<and> \<not> list_all is_digit k \<and> list_all plain_char k)"

fun plain_items :: "template_item list \<Rightarrow> bool" where
  "plain_items [] = True"
| "plain_items (Lit s # items) = plain_items items"
| "plain_items (Field k # items) = (valid_key k \<and> plain_items items)"

fun expand_item :: "params \<Rightarrow> template_item \<Rightarrow> string" where
  "expand_item P (Lit s) = s"
| "expand_item P (Field k) = (case P k of Some v \<Rightarrow> v | None \<Rightarrow> ''{'' @ k @ ''}'')"

definition expand :: "params \<Rightarrow> template_item list \<Rightarrow> string" where
  "expand P items = concat (map (expand_item P) items)"

text \<open>The default templates, read as literal text and plain fields.\<close>

fun DEFAULT_EVENT_ITEMS :: "EventType \<Rightarrow> template_item list" where
  "DEFAULT_EVENT_ITEMS MESSAGE = [Lit ''['', Field ''name'', Lit ''] '', Field ''message'']"
| "DEFAULT_EVENT_ITEMS START = [Lit ''['', Field ''name'', Lit ''] Server started!'']"
| "DEFAULT_EVENT_ITEMS REGISTERED =
     [Lit ''['', Field ''name'', Lit ''] Server registered with Playfab!'']"
| "DEFAULT_EVENT_ITEMS SHUTDOWN = [Lit ''['', Field ''name'', Lit ''] Server shutdown!'']"
| "DEFAULT_EVENT_ITEMS CRASH = [Lit ''['', Field ''name'', Lit ''] Server crashed!'']"
| "DEFAULT_EVENT_ITEMS PLAYER_JOIN =
     [Lit ''['', Field ''name'', Lit (''] Player '' @ [CHR 0x27]), Field ''player'',
      Lit (CHR 0x27 # '' joined the game'')]"
| "DEFAULT_EVENT_ITEMS PLAYER_LEAVE =
     [Lit ''['', Field ''name'', Lit (''] Player '' @ [CHR 0x27]), Field ''player'',
      Lit (CHR 0x27 # '' left the game'')]"
| "DEFAULT_EVENT_ITEMS COMMAND =
     [Lit ''['', Field ''name'', Lit ''] Command executed: '', Field ''command'']"

section \<open>Properties\<close>

subsection \<open>The worker thread of the queued handler\<close>

lemma execute_Nil: "execute cb [] t = t"
  by (simp add: execute_def)

lemma execute_Cons: "execute cb (a # sched) t = execute cb sched (step cb t a)"
  by (simp add: execute_def)

lemma execute_append: "execute cb (xs @ ys) t = execute cb ys (execute cb xs t)"
  by (simp add: execute_def)

lemma puts_append: "puts (xs @ ys) = puts xs @ puts ys"
  by (induction xs rule: puts.induct) simp_all

lemma puts_Work: "puts (replicate n Work) = []"
  by (induction n) simp_all

lemma begun_append: "begun (xs @ ys) = begun xs @ begun ys"
  by (induction xs rule: begun.induct) simp_all

lemma fifo_step:
  "begun (trace t) @ in_hand (worker t) @ event_queue t = P \<Longrightarrow>
   begun (trace (step cb t a)) @ in_hand (worker (step cb t a)) @ event_queue (step cb t a) =
     P @ puts [a]"
proof (cases a)
  case (Put e)
  then show ?thesis if "begun (trace t) @ in_hand (worker t) @ event_queue t = P"
    using that by (auto simp: put_def)
next
  case SetWakeup
  then show ?thesis if "begun (trace t) @ in_hand (worker t) @ event_queue t = P"
    using that by (auto simp: set_wakeup_def)
next
  case Work
  then show ?thesis if "begun (trace t) @ in_hand (worker t) @ event_queue t = P"
    using that
    by (cases "worker t")
      (auto simp: run_step_def begun_append split: list.splits outcome.splits)
qed

lemma fifo_run:
  "begun (trace t) @ in_hand (worker t) @ event_queue t = P \<Longrightarrow>
   begun (trace (execute cb sched t)) @ in_hand (worker (execute cb sched t)) @ event_queue (execute cb sched t) =
     P @ puts sched"
proof (induction sched arbitrary: t P)
  case Nil
  then show ?case by (simp add: execute_Nil)
next
  case (Cons a sched)
  have "puts (a # sched) = puts [a] @ puts sched"
    by (cases a) simp_all
  with Cons.IH [OF fifo_step [OF Cons.prems, of cb a]] show ?case
    by (simp add: execute_Cons)
qed

lemma call_state_step:
  "call_state_of (trace t) = pc_call_state (worker t) \<Longrightarrow>
   call_state_of (trace (step cb t a)) = pc_call_state (worker (step cb t a))"
proof (cases a)
  case (Put e)
  then show ?thesis if "call_state_of (trace t) = pc_call_state (worker t)"
    using that by (simp add: put_def)
next
  case SetWakeup
  then show ?thesis if "call_state_of (trace t) = pc_call_state (worker t)"
    using that by (simp add: set_wakeup_def)
next
  case Work
  then show ?thesis if "call_state_of (trace t) = pc_call_state (worker t)"
    using that
    by (cases "worker t")
      (auto simp: run_step_def call_state_of_def split: list.splits outcome.splits)
qed

lemma call_state_run:
  "call_state_of (trace t) = pc_call_state (worker t) \<Longrightarrow>
   call_state_of (trace (execute cb sched t)) = pc_call_state (worker (execute cb sched t))"
  by (induction sched arbitrary: t) (simp_all add: execute_Nil execute_Cons call_state_step)

lemma pc_call_state_serial: "pc_call_state pc \<noteq> Overlap"
  by (cases pc) simp_all

lemma init_fifo:
  "begun (trace (NotificationThread_init s)) @ in_hand (worker (NotificationThread_init s)) @
     event_queue (NotificationThread_init s) = []"
  by (simp add: NotificationThread_init_def)

lemma init_call_state:
  "call_state_of (trace (NotificationThread_init s)) = pc_call_state (worker (NotificationThread_init s))"
  by (simp add: NotificationThread_init_def call_state_of_def)


lemma can_drain_step:
  assumes "\<forall>k m s. \<exists>s'. cb k m s = Returned s'" and "can_drain t"
  shows "can_drain (step cb t a)"
proof (cases a)
  case (Put e)
  then show ?thesis using assms(2)
    by (cases "worker t") (simp_all add: can_drain_def put_def)
next
  case SetWakeup
  then show ?thesis using assms(2)
    by (cases "worker t") (simp_all add: can_drain_def set_wakeup_def)
next
  case Work
  show ?thesis
  proof (cases "worker t")
    case (InCall e)
    from assms(1) obtain s' where "cb (fst e) (snd e) (sink_state t) = Returned s'"
      by blast
    with InCall Work show ?thesis
      by (simp add: can_drain_def run_step_def)
  qed (use Work assms(2) in \<open>auto simp: can_drain_def run_step_def split: list.splits\<close>)
qed

lemma can_drain_run:
  assumes "\<forall>k m s. \<exists>s'. cb k m s = Returned s'"
  shows "can_drain t \<Longrightarrow> can_drain (execute cb sched t)"
  by (induction sched arbitrary: t) (simp_all add: execute_Nil execute_Cons can_drain_step [OF assms])

lemma drain_step:
  assumes "\<forall>k m s. \<exists>s'. cb k m s = Returned s'" and "can_drain t"
    and "steps_to_drain t = Suc n"
  shows "steps_to_drain (run_step cb t) = n"
proof (cases "worker t")
  case (InCall e)
  from assms(1) obtain s' where "cb (fst e) (snd e) (sink_state t) = Returned s'"
    by blast
  with InCall assms(3) show ?thesis
    by (simp add: steps_to_drain_def run_step_def)
qed (use assms(2,3) in \<open>auto simp: can_drain_def steps_to_drain_def run_step_def split: list.splits\<close>)

lemma drain:
  assumes "\<forall>k m s. \<exists>s'. cb k m s = Returned s'"
  shows "can_drain t \<Longrightarrow> steps_to_drain t = n \<Longrightarrow>
         event_queue (execute cb (replicate n Work) t) = [] \<and>
         worker (execute cb (replicate n Work) t) = AtCheck"
proof (induction n arbitrary: t)
  case 0
  then show ?case
    by (cases "worker t"; cases "event_queue t")
      (simp_all add: execute_Nil can_drain_def steps_to_drain_def)
next
  case (Suc n)
  have c: "can_drain (run_step cb t)"
    using can_drain_step [OF assms Suc.prems(1), of Work] by simp
  have d: "steps_to_drain (run_step cb t) = n"
    using drain_step [OF assms Suc.prems] .
  from Suc.IH [OF c d] show ?case
    by (simp add: execute_Cons)
qed

lemma call_step_Overlap: "foldl call_step Overlap tr = Overlap"
  by (induction tr) simp_all

lemma call_step_Stopped: "foldl call_step Stopped tr \<noteq> Idle"
  by (cases tr) (simp_all add: call_step_Overlap)

lemma idle_trace: "foldl call_step Idle tr = Idle \<Longrightarrow> tr = deliveries (begun tr)"
proof (induction tr rule: induct_list012)
  case 1
  show ?case by simp
next
  case (2 x)
  then show ?case by (cases x) simp_all
next
  case (3 x y zs)
  show ?case
  proof (cases x)
    case (Begin e)
    show ?thesis
    proof (cases y)
      case (End e')
      with Begin 3 show ?thesis
        by (cases "e = e'") (simp_all add: call_step_Overlap)
    next
      case (Fail e' z)
      with Begin 3 show ?thesis
        by (cases "e = e'") (simp_all add: call_step_Overlap call_step_Stopped)
    next
      case (Begin e')
      with \<open>x = Begin e\<close> 3 show ?thesis
        by (simp add: call_step_Overlap)
    qed
  qed (use 3 in \<open>simp_all add: call_step_Overlap\<close>)
qed

lemma replay_append:
  "replay cb (tr @ tr') s = (case replay cb tr s of None \<Rightarrow> None | Some s' \<Rightarrow> replay cb tr' s')"
  by (induction cb tr s rule: replay.induct) (simp_all split: outcome.splits)

lemma replay_step:
  "replay cb (trace t) s0 = Some (sink_state t) \<Longrightarrow>
   replay cb (trace (step cb t a)) s0 = Some (sink_state (step cb t a))"
proof (cases a)
  case (Put e)
  then show ?thesis if "replay cb (trace t) s0 = Some (sink_state t)"
    using that by (simp add: put_def)
next
  case SetWakeup
  then show ?thesis if "replay cb (trace t) s0 = Some (sink_state t)"
    using that by (simp add: set_wakeup_def)
next
  case Work
  then show ?thesis if "replay cb (trace t) s0 = Some (sink_state t)"
    using that
    by (cases "worker t")
      (auto simp: run_step_def replay_append split: list.splits outcome.splits)
qed

lemma replay_run:
  "replay cb (trace t) s0 = Some (sink_state t) \<Longrightarrow>
   replay cb (trace (execute cb sched t)) s0 = Some (sink_state (execute cb sched t))"
  by (induction sched arbitrary: t) (simp_all add: execute_Nil execute_Cons replay_step)

lemma init_replay:
  "replay cb (trace (NotificationThread_init s0)) s0 = Some (sink_state (NotificationThread_init s0))"
  by (simp add: NotificationThread_init_def)

lemma replay_deliveries:
  "replay cb (deliveries es) s = Some s' \<Longrightarrow> deliver cb es s = Returned s'"
  by (induction es arbitrary: s) (auto split: outcome.splits)

text \<open>
  C1. Whatever the callback and however the producers and the worker are scheduled, the
  events on which the worker has invoked \<^verbatim>\<open>_handle_message\<close>, then the event it holds, then
  the events still queued, are together the events put on the queue, in the order of the
  \<^verbatim>\<open>put\<close>s: the invocations follow the order of enqueueing. The trace is serial: no
  invocation begins while another runs, as one worker drains the queue. The invocations
  are real: the trace replays against the callback, and the state of the sink is the one
  the callback has left after the invocations of the trace, in that order. And when the
  callback always returns, the worker, given enough steps, delivers every event put: the
  trace is then exactly one begun and ended invocation per event, in the order of the
  \<^verbatim>\<open>put\<close>s, the queue is empty, and the sink is in the state that calling the callback on
  the events put, one after the other in that order, gives.
\<close>

theorem queued_delivery_fifo:
  "begun (trace (execute cb sched (NotificationThread_init s0))) @
     in_hand (worker (execute cb sched (NotificationThread_init s0))) @
     event_queue (execute cb sched (NotificationThread_init s0)) = puts sched \<and>
   serial (trace (execute cb sched (NotificationThread_init s0))) \<and>
   replay cb (trace (execute cb sched (NotificationThread_init s0))) s0 =
     Some (sink_state (execute cb sched (NotificationThread_init s0))) \<and>
   ((\<forall>k m s. \<exists>s'. cb k m s = Returned s') \<longrightarrow>
    (\<exists>n. trace (execute cb (sched @ replicate n Work) (NotificationThread_init s0)) =
            deliveries (puts sched) \<and>
          event_queue (execute cb (sched @ replicate n Work) (NotificationThread_init s0)) = [] \<and>
          deliver cb (puts sched) s0 =
            Returned (sink_state (execute cb (sched @ replicate n Work) (NotificationThread_init s0)))))"
proof (intro conjI impI)
  let ?init = "NotificationThread_init s0 :: 'a NotificationThread"
  show "begun (trace (execute cb sched ?init)) @ in_hand (worker (execute cb sched ?init)) @
      event_queue (execute cb sched ?init) = puts sched"
    using fifo_run [OF init_fifo, of cb sched s0] by simp
  show "serial (trace (execute cb sched ?init))"
    using call_state_run [OF init_call_state, of cb sched s0]
    by (simp add: serial_def pc_call_state_serial)
  show "replay cb (trace (execute cb sched ?init)) s0 = Some (sink_state (execute cb sched ?init))"
    by (rule replay_run [OF init_replay])
  assume total: "\<forall>k m s. \<exists>s'. cb k m s = Returned s'"
  define t where "t = execute cb sched ?init"
  define n where "n = steps_to_drain t"
  define t' where "t' = execute cb (sched @ replicate n Work) ?init"
  have "can_drain ?init"
    by (simp add: can_drain_def NotificationThread_init_def)
  then have "can_drain t"
    unfolding t_def by (rule can_drain_run [OF total])
  then have q: "event_queue t' = []" and w: "worker t' = AtCheck"
    using drain [OF total, of t n] by (simp_all add: t'_def t_def n_def execute_append)
  have "begun (trace t') @ in_hand (worker t') @ event_queue t' = puts (sched @ replicate n Work)"
    unfolding t'_def using fifo_run [OF init_fifo, of cb "sched @ replicate n Work" s0] by simp
  then have b: "begun (trace t') = puts sched"
    by (simp add: q w puts_append puts_Work)
  have "call_state_of (trace t') = pc_call_state (worker t')"
    unfolding t'_def by (rule call_state_run [OF init_call_state])
  then have "foldl call_step Idle (trace t') = Idle"
    by (simp add: w call_state_of_def)
  then have tr: "trace t' = deliveries (puts sched)"
    using idle_trace [of "trace t'"] b by simp
  have "replay cb (trace t') s0 = Some (sink_state t')"
    unfolding t'_def by (rule replay_run [OF init_replay])
  then have "deliver cb (puts sched) s0 = Returned (sink_state t')"
    unfolding tr by (rule replay_deliveries)
  with q tr show "\<exists>n. trace (execute cb (sched @ replicate n Work) ?init) = deliveries (puts sched) \<and>
      event_queue (execute cb (sched @ replicate n Work) ?init) = [] \<and>
      deliver cb (puts sched) s0 =
        Returned (sink_state (execute cb (sched @ replicate n Work) ?init))"
    unfolding t'_def by blast
qed

theorem queued_delivery_fifo_witness:
  "begun (trace (execute QueuedNotificationHandler_handle_message
      [Put (START, ''E1''), Put (CRASH, ''E2''), SetWakeup, Work, Work, Put (MESSAGE, ''E3''), Work]
      (NotificationThread_init []))) = [(START, ''E1'')] \<and>
   event_queue (execute QueuedNotificationHandler_handle_message
      [Put (START, ''E1''), Put (CRASH, ''E2''), SetWakeup, Work, Work, Put (MESSAGE, ''E3''), Work]
      (NotificationThread_init [])) = [(CRASH, ''E2''), (MESSAGE, ''E3'')] \<and>
   (\<exists>n. trace (execute QueuedNotificationHandler_handle_message
      ([Put (START, ''E1''), Put (CRASH, ''E2''), SetWakeup, Work, Work, Put (MESSAGE, ''E3''), Work]
        @ replicate n Work) (NotificationThread_init [])) =
      [Begin (START, ''E1''), End (START, ''E1''), Begin (CRASH, ''E2''), End (CRASH, ''E2''),
       Begin (MESSAGE, ''E3''), End (MESSAGE, ''E3'')] \<and>
     sink_state (execute QueuedNotificationHandler_handle_message
      ([Put (START, ''E1''), Put (CRASH, ''E2''), SetWakeup, Work, Work, Put (MESSAGE, ''E3''), Work]
        @ replicate n Work) (NotificationThread_init [])) = [''E1'', ''E2'', ''E3''])"
proof -
  let ?cb = "QueuedNotificationHandler_handle_message"
  let ?sched = "[Put (START, ''E1''), Put (CRASH, ''E2''), SetWakeup, Work, Work,
    Put (MESSAGE, ''E3''), Work]"
  let ?t = "execute ?cb ?sched (NotificationThread_init [])"
  have total: "\<forall>k m s. \<exists>s'. ?cb k m s = Returned s'"
    by (simp add: QueuedNotificationHandler_handle_message_def)
  have t: "?t = \<lparr>event_queue = [(CRASH, ''E2''), (MESSAGE, ''E3'')], wakeup_event = True,
      pending_set = 2, worker = InCall (START, ''E1''), sink_state = [],
      trace = [Begin (START, ''E1'')]\<rparr>"
    by (simp add: execute_def NotificationThread_init_def put_def set_wakeup_def run_step_def)
  have p: "puts ?sched = [(START, ''E1''), (CRASH, ''E2''), (MESSAGE, ''E3'')]"
    by simp
  have d: "deliver ?cb [(START, ''E1''), (CRASH, ''E2''), (MESSAGE, ''E3'')] [] =
      Returned [''E1'', ''E2'', ''E3'']"
    by (simp add: QueuedNotificationHandler_handle_message_def)
  from queued_delivery_fifo [of ?cb ?sched "[]"] total
  obtain n where "trace (execute ?cb (?sched @ replicate n Work) (NotificationThread_init [])) =
      deliveries (puts ?sched)"
    and "deliver ?cb (puts ?sched) [] =
      Returned (sink_state (execute ?cb (?sched @ replicate n Work) (NotificationThread_init [])))"
    by blast
  then have "trace (execute ?cb (?sched @ replicate n Work) (NotificationThread_init [])) =
      deliveries [(START, ''E1''), (CRASH, ''E2''), (MESSAGE, ''E3'')]"
    and "Returned [''E1'', ''E2'', ''E3''] =
      Returned (sink_state (execute ?cb (?sched @ replicate n Work) (NotificationThread_init [])))"
    unfolding p d by blast+
  then have "trace (execute ?cb (?sched @ replicate n Work) (NotificationThread_init [])) =
      [Begin (START, ''E1''), End (START, ''E1''), Begin (CRASH, ''E2''), End (CRASH, ''E2''),
       Begin (MESSAGE, ''E3''), End (MESSAGE, ''E3'')]"
    and "sink_state (execute ?cb (?sched @ replicate n Work) (NotificationThread_init [])) =
      [''E1'', ''E2'', ''E3'']"
    by (simp_all only: deliveries.simps outcome.inject)
  then have "\<exists>n. trace (execute ?cb (?sched @ replicate n Work) (NotificationThread_init [])) =
      [Begin (START, ''E1''), End (START, ''E1''), Begin (CRASH, ''E2''), End (CRASH, ''E2''),
       Begin (MESSAGE, ''E3''), End (MESSAGE, ''E3'')] \<and>
     sink_state (execute ?cb (?sched @ replicate n Work) (NotificationThread_init [])) =
      [''E1'', ''E2'', ''E3'']"
    by blast
  then show ?thesis
    by (simp add: t)
qed

text \<open>
  C2, as stated, fails: \<^verbatim>\<open>run\<close> has no \<^verbatim>\<open>try\<close>, so an exception of the callback leaves
  \<^verbatim>\<open>run\<close> and ends the thread. With a \<^verbatim>\<open>_handle_message\<close> that raises on the first event,
  the second event stays in the queue however many steps the worker is given.
\<close>

theorem worker_continues_counterexample:
  "worker (execute raising_handle_message
      [Put (CRASH, ''E1''), SetWakeup, Put (START, ''E2''), SetWakeup,
       Work, Work, Work, Work, Work, Work, Work, Work, Work, Work]
      (NotificationThread_init [])) = Terminated OtherError \<and>
   event_queue (execute raising_handle_message
      [Put (CRASH, ''E1''), SetWakeup, Put (START, ''E2''), SetWakeup,
       Work, Work, Work, Work, Work, Work, Work, Work, Work, Work]
      (NotificationThread_init [])) = [(START, ''E2'')] \<and>
   trace (execute raising_handle_message
      [Put (CRASH, ''E1''), SetWakeup, Put (START, ''E2''), SetWakeup,
       Work, Work, Work, Work, Work, Work, Work, Work, Work, Work]
      (NotificationThread_init [])) = [Begin (CRASH, ''E1''), Fail (CRASH, ''E1'') OtherError]"
  by (simp add: execute_def NotificationThread_init_def put_def set_wakeup_def run_step_def
      raising_handle_message_def)

lemma terminated_run:
  "worker t = Terminated x \<Longrightarrow>
   worker (execute cb sched t) = Terminated x \<and> trace (execute cb sched t) = trace t \<and>
   event_queue (execute cb sched t) = event_queue t @ puts sched \<and>
   sink_state (execute cb sched t) = sink_state t"
proof (induction sched arbitrary: t)
  case Nil
  then show ?case by (simp add: execute_Nil)
next
  case (Cons a sched)
  have "worker (step cb t a) = Terminated x \<and> trace (step cb t a) = trace t \<and>
        event_queue (step cb t a) = event_queue t @ puts [a] \<and>
        sink_state (step cb t a) = sink_state t"
    using Cons.prems by (cases a) (simp_all add: put_def set_wakeup_def run_step_def)
  moreover have "puts (a # sched) = puts [a] @ puts sched"
    by (cases a) simp_all
  ultimately show ?case
    using Cons.IH [of "step cb t a"] by (simp add: execute_Cons)
qed

text \<open>
  C2, amended. An exception raised by a delivery on the worker thread terminates the
  worker: the failed invocation is the last entry of the trace for ever, whatever is
  scheduled afterwards; the events queued at that time and those put later stay in the
  queue, in order, and none is delivered.
\<close>

theorem worker_terminated_by_exception:
  "worker t = InCall e \<Longrightarrow> cb (fst e) (snd e) (sink_state t) = Raised x s' \<Longrightarrow>
   worker (execute cb (Work # sched) t) = Terminated x \<and>
   trace (execute cb (Work # sched) t) = trace t @ [Fail e x] \<and>
   event_queue (execute cb (Work # sched) t) = event_queue t @ puts sched \<and>
   sink_state (execute cb (Work # sched) t) = s'"
proof -
  assume "worker t = InCall e" and "cb (fst e) (snd e) (sink_state t) = Raised x s'"
  then have "worker (run_step cb t) = Terminated x" and "trace (run_step cb t) = trace t @ [Fail e x]"
    and "event_queue (run_step cb t) = event_queue t" and "sink_state (run_step cb t) = s'"
    by (simp_all add: run_step_def)
  with terminated_run [of "run_step cb t" x cb sched] show ?thesis
    by (simp add: execute_Cons)
qed

theorem worker_terminated_by_exception_witness:
  "worker (execute raising_handle_message [Put (CRASH, ''E1''), Work, Work, Work]
      (NotificationThread_init [])) = InCall (CRASH, ''E1'') \<and>
   worker (execute raising_handle_message
      ([Put (CRASH, ''E1''), Work, Work, Work] @ [Work, Put (START, ''E2''), SetWakeup, Work, Work])
      (NotificationThread_init [])) = Terminated OtherError \<and>
   trace (execute raising_handle_message
      ([Put (CRASH, ''E1''), Work, Work, Work] @ [Work, Put (START, ''E2''), SetWakeup, Work, Work])
      (NotificationThread_init [])) = [Begin (CRASH, ''E1''), Fail (CRASH, ''E1'') OtherError] \<and>
   event_queue (execute raising_handle_message
      ([Put (CRASH, ''E1''), Work, Work, Work] @ [Work, Put (START, ''E2''), SetWakeup, Work, Work])
      (NotificationThread_init [])) = [(START, ''E2'')]"
proof -
  let ?t = "execute raising_handle_message [Put (CRASH, ''E1''), Work, Work, Work]
    (NotificationThread_init [])"
  let ?sched = "[Put (START, ''E2''), SetWakeup, Work, Work]"
  have t: "?t = \<lparr>event_queue = [], wakeup_event = False, pending_set = 1,
      worker = InCall (CRASH, ''E1''), sink_state = [], trace = [Begin (CRASH, ''E1'')]\<rparr>"
    by (simp add: execute_def NotificationThread_init_def put_def run_step_def)
  have w: "worker ?t = InCall (CRASH, ''E1'')"
    by (simp add: t)
  have r: "raising_handle_message (fst (CRASH, ''E1'')) (snd (CRASH, ''E1'')) (sink_state ?t) =
      Raised OtherError []"
    by (simp add: t raising_handle_message_def)
  have q: "event_queue ?t @ puts ?sched = [(START, ''E2'')]"
    by (simp add: t)
  have tr: "trace ?t @ [Fail (CRASH, ''E1'') OtherError] =
      [Begin (CRASH, ''E1''), Fail (CRASH, ''E1'') OtherError]"
    by (simp add: t)
  have sp: "execute raising_handle_message
      ([Put (CRASH, ''E1''), Work, Work, Work] @ Work # ?sched) (NotificationThread_init []) =
      execute raising_handle_message (Work # ?sched) ?t"
    by (rule execute_append)
  from worker_terminated_by_exception
    [where t = ?t and e = "(CRASH, ''E1'')" and cb = raising_handle_message and x = OtherError
       and s' = "[]" and sched = ?sched, OF w r]
  have "worker (execute raising_handle_message (Work # ?sched) ?t) = Terminated OtherError"
    and "trace (execute raising_handle_message (Work # ?sched) ?t) =
      [Begin (CRASH, ''E1''), Fail (CRASH, ''E1'') OtherError]"
    and "event_queue (execute raising_handle_message (Work # ?sched) ?t) = [(START, ''E2'')]"
    unfolding q tr by blast+
  with w show ?thesis
    unfolding sp by blast
qed

subsection \<open>The formatter on plain templates\<close>

lemma emit_Nil: "emit [] r = r"
  by (simp add: emit_def split: sum.splits)

lemma emit_emit: "emit s (emit t r) = emit (s @ t) r"
  by (simp add: emit_def split: sum.splits)

lemma emit_Inr: "emit s (Inr out) = Inr (s @ out)"
  by (simp add: emit_def)

lemma plain_char_simps:
  "plain_char c \<Longrightarrow> c \<noteq> CHR ''{''" "plain_char c \<Longrightarrow> c \<noteq> CHR ''}''"
  "plain_char c \<Longrightarrow> c \<noteq> CHR ''[''" "plain_char c \<Longrightarrow> c \<noteq> CHR ''.''"
  "plain_char c \<Longrightarrow> c \<noteq> CHR '':''" "plain_char c \<Longrightarrow> c \<noteq> CHR ''!''"
  by (simp_all add: plain_char_def)

lemma scan_name:
  "list_all plain_char k \<Longrightarrow>
   format_scan R g (Name acc) (k @ CHR ''}'' # X) =
     (case render_field R g (acc @ k) None [] of
        Inl e \<Rightarrow> Inl e
      | Inr v \<Rightarrow> emit v (format_scan R g Text X))"
  by (induction k arbitrary: acc) (simp_all add: plain_char_simps)

lemma field_first_plain:
  "list_all plain_char k \<Longrightarrow> field_first k = k"
  unfolding field_first_def by (induction k) (simp_all add: plain_char_simps)

lemma field_rest_plain:
  "list_all plain_char k \<Longrightarrow> field_rest k = []"
  unfolding field_rest_def by (induction k) (simp_all add: plain_char_simps)

lemma render_field_plain:
  "valid_key k \<Longrightarrow>
   render_field R (SafeDict_getitem P) k None [] = Inr (expand_item P (Field k))"
  by (simp add: valid_key_def render_field_def field_first_plain field_rest_plain
      SafeDict_getitem_def SafeDict_missing_def split: option.splits)

lemma scan_literal:
  "format_scan R g Text (escape_braces s @ X) = emit s (format_scan R g Text X)"
proof (induction s)
  case Nil
  show ?case by (simp add: escape_braces_def emit_Nil)
next
  case (Cons c s)
  have e: "escape_braces (c # s) =
      (if c = CHR ''{'' \<or> c = CHR ''}'' then [c, c] else [c]) @ escape_braces s"
    by (simp add: escape_braces_def)
  show ?case
    using Cons.IH by (simp add: e emit_emit)
qed

lemma scan_field:
  assumes "valid_key k"
  shows "format_scan R (SafeDict_getitem P) Text (CHR ''{'' # k @ CHR ''}'' # X) =
         emit (expand_item P (Field k)) (format_scan R (SafeDict_getitem P) Text X)"
proof -
  have ok: "list_all plain_char k"
    using assms by (simp add: valid_key_def)
  from assms obtain c k' where k: "k = c # k'"
    by (cases k) (auto simp: valid_key_def)
  have c: "c \<noteq> CHR ''{''"
    using ok by (simp add: k plain_char_simps)
  have "format_scan R (SafeDict_getitem P) Text (CHR ''{'' # k @ CHR ''}'' # X) =
        format_scan R (SafeDict_getitem P) (Name []) (k @ CHR ''}'' # X)"
    using c by (simp add: k)
  also have "\<dots> = emit (expand_item P (Field k)) (format_scan R (SafeDict_getitem P) Text X)"
    using scan_name [OF ok, of R "SafeDict_getitem P" "[]" X] render_field_plain [OF assms, of R P]
    by simp
  finally show ?thesis .
qed

lemma scan_items:
  "plain_items items \<Longrightarrow>
   format_scan R (SafeDict_getitem P) Text (template_of items @ X) =
     emit (expand P items) (format_scan R (SafeDict_getitem P) Text X)"
proof (induction items rule: plain_items.induct)
  case 1
  show ?case by (simp add: template_of_def expand_def emit_Nil)
next
  case (2 s items)
  then show ?case
    by (simp add: template_of_def expand_def scan_literal emit_emit)
next
  case (3 k items)
  then have v: "valid_key k" by simp
  show ?case
    using 3 scan_field [OF v, of R P "template_of items @ X"]
    by (simp add: template_of_def expand_def emit_emit)
qed

lemma safeformat_plain:
  "plain_items items \<Longrightarrow> P ''str'' = None \<Longrightarrow>
   safeformat R (template_of items) P = Inr (expand P items)"
  using scan_items [of items R P "[]"]
  by (simp add: safeformat_def format_map_def emit_Inr)

lemma expand_missing_sublist:
  assumes "Field k \<in> set items" and m: "P k = None"
  shows "sublist (''{'' @ k @ ''}'') (expand P items)"
proof -
  from assms obtain A B where "items = A @ Field k # B" by (auto dest: split_list)
  then have "expand P items = expand P A @ (''{'' @ k @ ''}'') @ expand P B"
    using m by (simp add: expand_def)
  then show ?thesis unfolding sublist_def by blast
qed

text \<open>
  C3, as stated, fails: a doubled brace is an escape of \<^verbatim>\<open>str.format_map\<close>, so the text
  \<^verbatim>\<open>{k}\<close> inside \<^verbatim>\<open>{{k}}\<close> is not replaced although \<open>k\<close> is present; and a template that
  uses a missing key and has a single brace elsewhere gives no output at all.
\<close>

theorem safeformat_occurrence_counterexample:
  "safeformat no_object_protocol ''{{k}}'' (no_params(''k'' \<mapsto> ''v'')) = Inr ''{k}'' \<and>
   safeformat no_object_protocol ''{k}}'' no_params = Inl ValueError"
  by (simp add: safeformat_def format_map_def emit_def render_field_def field_first_def
      field_rest_def is_digit_def SafeDict_getitem_def SafeDict_missing_def no_params_def)

text \<open>
  C3, amended. For every template written as literal text (each brace doubled) and plain
  fields \<^verbatim>\<open>{key}\<close> with valid keys, and every keyword mapping without the keyword \<^verbatim>\<open>str\<close>,
  \<^verbatim>\<open>safeformat\<close> returns the literal text with every field of a present key replaced by the
  string value and every field of an absent key left as it is, braces included; so the
  output contains \<^verbatim>\<open>{k}\<close> for each key \<open>k\<close> of a field that the mapping lacks.
\<close>

theorem safeformat_plain_template:
  assumes "plain_items items" and "kwargs ''str'' = None"
  shows "safeformat R (template_of items) kwargs = Inr (expand kwargs items) \<and>
         (\<forall>k. Field k \<in> set items \<and> kwargs k = None
            \<longrightarrow> sublist (''{'' @ k @ ''}'') (expand kwargs items))"
  using assms safeformat_plain [of items kwargs R] expand_missing_sublist [of _ items kwargs]
  by blast

theorem safeformat_plain_template_witness:
  "plain_items [Lit ''a '', Field ''k'', Lit '' b '', Field ''j''] \<and>
   (no_params(''k'' \<mapsto> ''v'')) ''str'' = None \<and>
   safeformat no_object_protocol ''a {k} b {j}'' (no_params(''k'' \<mapsto> ''v'')) = Inr ''a v b {j}'' \<and>
   sublist ''{j}'' ''a v b {j}''"
proof -
  let ?items = "[Lit ''a '', Field ''k'', Lit '' b '', Field ''j'']"
  let ?P = "no_params(''k'' \<mapsto> ''v'')"
  have p: "plain_items ?items"
    by (simp add: valid_key_def plain_char_def is_digit_def)
  have s: "?P ''str'' = None"
    by (simp add: no_params_def)
  have t: "template_of ?items = ''a {k} b {j}''"
    by (simp add: template_of_def escape_braces_def)
  have e: "expand ?P ?items = ''a v b {j}''"
    by (simp add: expand_def no_params_def)
  have m: "Field ''j'' \<in> set ?items \<and> ?P ''j'' = None"
    by (simp add: no_params_def)
  from safeformat_plain_template [where items = ?items and kwargs = ?P and R = no_object_protocol, OF p s] m
  have "safeformat no_object_protocol (template_of ?items) ?P = Inr (expand ?P ?items)"
    and "sublist (''{'' @ ''j'' @ ''}'') (expand ?P ?items)"
    by blast+
  then show ?thesis
    using p s by (simp add: t e)
qed

text \<open>
  C4, as stated, fails: \<^verbatim>\<open>safeformat\<close> raises \<^verbatim>\<open>ValueError\<close> on a template with a single
  brace, and \<^verbatim>\<open>TypeError\<close> when a keyword is called \<^verbatim>\<open>str\<close>, the name of its own first
  parameter.
\<close>

theorem safeformat_total_counterexample:
  "safeformat no_object_protocol ''{'' no_params = Inl ValueError \<and>
   safeformat no_object_protocol ''x'' (no_params(''str'' \<mapsto> ''y'')) = Inl TypeError"
  by (simp add: safeformat_def format_map_def no_params_def)

text \<open>
  C4, amended. \<^verbatim>\<open>safeformat\<close> returns a result, and raises nothing, for every template
  written as literal text (each brace doubled) and plain fields with valid keys, and every
  keyword mapping without the keyword \<^verbatim>\<open>str\<close>, whether the keys of the fields are present
  or not.
\<close>

theorem safeformat_returns:
  "plain_items items \<Longrightarrow> kwargs ''str'' = None \<Longrightarrow>
   \<exists>out. safeformat R (template_of items) kwargs = Inr out"
  by (simp add: safeformat_plain)

theorem safeformat_returns_witness:
  "plain_items [Field ''name'', Lit ''{}''] \<and> no_params ''str'' = None \<and>
   (\<exists>out. safeformat no_object_protocol ''{name}{{}}'' no_params = Inr out)"
proof -
  have p: "plain_items [Field ''name'', Lit ''{}'']"
    by (simp add: valid_key_def plain_char_def is_digit_def)
  have s: "no_params ''str'' = None"
    by (simp add: no_params_def)
  have t: "template_of [Field ''name'', Lit ''{}''] = ''{name}{{}}''"
    by (simp add: template_of_def escape_braces_def)
  show ?thesis
    using safeformat_returns
      [where items = "[Field ''name'', Lit ''{}'']" and kwargs = no_params and R = no_object_protocol, OF p s]
      p s
    by (simp add: t)
qed

subsection \<open>\<^verbatim>\<open>NotificationHandler.send_event\<close>\<close>

lemma default_whitelist_UNIV: "default_whitelist = UNIV"
proof -
  have "e \<in> default_whitelist" for e
    by (cases e) (simp_all add: default_whitelist_def)
  then show ?thesis by blast
qed

lemma default_handler:
  "load module_heap (NotificationHandler_init (Some n) None None) =
     \<lparr>name = n, whitelist = UNIV, formats = DEFAULT_EVENT_FORMATS\<rparr>"
  by (simp add: load_def module_heap_def NotificationHandler_init_def default_whitelist_UNIV
      DEFAULT_EVENT_FORMATS_ref_def NotificationHandler_default_whitelist_def
      QueuedNotificationHandler_default_whitelist_def)

lemma DEFAULT_EVENT_FORMATS_items:
  "DEFAULT_EVENT_FORMATS e = Some (template_of (DEFAULT_EVENT_ITEMS e))"
  by (cases e) (simp_all add: DEFAULT_EVENT_FORMATS_def template_of_def escape_braces_def)

lemma DEFAULT_EVENT_ITEMS_plain: "plain_items (DEFAULT_EVENT_ITEMS e)"
  by (cases e) (simp_all add: valid_key_def plain_char_def is_digit_def)

text \<open>
  With the default templates, every whitelisted event type and all parameters without the
  keyword \<^verbatim>\<open>str\<close> give one invocation of the sink, with the template expanded.
\<close>

lemma send_event_default_formats:
  assumes "formats self = DEFAULT_EVENT_FORMATS" and "event_type \<in> whitelist self"
    and "params ''str'' = None"
  shows "send_event R sink self event_type params s =
         sink event_type
           (expand (params(''name'' \<mapsto> name self)) (DEFAULT_EVENT_ITEMS event_type)) s"
proof -
  have "(params(''name'' \<mapsto> name self)) ''str'' = None"
    using assms(3) by simp
  then have "safeformat R (template_of (DEFAULT_EVENT_ITEMS event_type))
      (params(''name'' \<mapsto> name self)) =
      Inr (expand (params(''name'' \<mapsto> name self)) (DEFAULT_EVENT_ITEMS event_type))"
    by (rule safeformat_plain [OF DEFAULT_EVENT_ITEMS_plain])
  then show ?thesis
    using assms(1,2) by (simp add: send_event_def DEFAULT_EVENT_FORMATS_items)
qed

lemma format_PLAYER_JOIN:
  "safeformat R ''[{name}] Player '{player}' joined the game''
     (no_params(''player'' \<mapsto> ''Ann'', ''name'' \<mapsto> ''Box'')) =
   Inr ''[Box] Player 'Ann' joined the game''"
  by (simp add: safeformat_def format_map_def emit_def render_field_def field_first_def
      field_rest_def is_digit_def SafeDict_getitem_def SafeDict_missing_def no_params_def)

text \<open>
  C5. An event type outside the whitelist makes \<^verbatim>\<open>send_event\<close> return at once: whatever the
  sink, the parameters and the templates (also when there is none for the event type), the
  call returns, the sink is not invoked and its state is unchanged.
\<close>

theorem send_event_not_whitelisted:
  "event_type \<notin> whitelist self \<Longrightarrow> send_event R sink self event_type params s = Returned s"
  by (simp add: send_event_def)

theorem send_event_not_whitelisted_witness:
  "CRASH \<notin> whitelist \<lparr>name = ''Box'', whitelist = {START}, formats = Map.empty\<rparr> \<and>
   send_event no_object_protocol recording_sink
     \<lparr>name = ''Box'', whitelist = {START}, formats = Map.empty\<rparr> CRASH Map.empty [] = Returned []"
  using send_event_not_whitelisted
    [of CRASH "\<lparr>name = ''Box'', whitelist = {START}, formats = Map.empty\<rparr>"
        no_object_protocol recording_sink Map.empty "[]"]
  by simp

text \<open>
  C6. A whitelisted event type without a template makes \<^verbatim>\<open>send_event\<close> raise \<^verbatim>\<open>KeyError\<close> to
  its caller, and the sink is not invoked: its state is the one before the call.
\<close>

theorem send_event_template_missing:
  "event_type \<in> whitelist self \<Longrightarrow> formats self event_type = None \<Longrightarrow>
   send_event R sink self event_type params s = Raised KeyError s"
  by (simp add: send_event_def)

theorem send_event_template_missing_witness:
  "START \<in> whitelist \<lparr>name = ''Box'', whitelist = {START}, formats = Map.empty\<rparr> \<and>
   formats \<lparr>name = ''Box'', whitelist = {START}, formats = Map.empty\<rparr> START = None \<and>
   send_event no_object_protocol recording_sink
     \<lparr>name = ''Box'', whitelist = {START}, formats = Map.empty\<rparr> START Map.empty []
     = Raised KeyError []"
  using send_event_template_missing
    [of START "\<lparr>name = ''Box'', whitelist = {START}, formats = Map.empty\<rparr>"
        no_object_protocol recording_sink Map.empty "[]"]
  by simp

text \<open>
  C7, as stated, fails: with a template present, \<^verbatim>\<open>send_event\<close> still makes no sink
  invocation when \<^verbatim>\<open>safeformat\<close> raises, on a template with a single brace or on a keyword
  \<^verbatim>\<open>str\<close> among the parameters.
\<close>

theorem send_event_one_invocation_counterexample:
  "send_event no_object_protocol recording_sink
     \<lparr>name = ''Box'', whitelist = UNIV, formats = DEFAULT_EVENT_FORMATS(START \<mapsto> ''{'')\<rparr>
     START no_params [] = Raised ValueError [] \<and>
   send_event no_object_protocol recording_sink
     \<lparr>name = ''Box'', whitelist = UNIV, formats = DEFAULT_EVENT_FORMATS\<rparr>
     START (no_params(''str'' \<mapsto> ''x'')) [] = Raised TypeError []"
  by (simp add: send_event_def safeformat_def format_map_def DEFAULT_EVENT_FORMATS_def
      no_params_def)

text \<open>
  C7, amended. For every whitelisted event type with a template present on which
  \<^verbatim>\<open>safeformat\<close> returns a message for the parameters with the handler's own name under the
  key \<^verbatim>\<open>name\<close>, in place of any \<^verbatim>\<open>name\<close> of the caller, \<^verbatim>\<open>send_event\<close> is exactly one
  invocation of the sink, with the event type and that message. So
  \<^verbatim>\<open>NotificationHandler(name="Box").send_event(EventType.PLAYER_JOIN, player="Ann")\<close> makes
  the sink receive \<^verbatim>\<open>EventType.PLAYER_JOIN\<close>, whose value is \<^verbatim>\<open>player_join\<close>, and
  \<^verbatim>\<open>[Box] Player 'Ann' joined the game\<close>, also when the caller passes another \<^verbatim>\<open>name\<close>.
\<close>

theorem send_event_whitelisted:
  "event_type \<in> whitelist self \<Longrightarrow> formats self event_type = Some template \<Longrightarrow>
   safeformat R template (params(''name'' \<mapsto> name self)) = Inr message \<Longrightarrow>
   send_event R sink self event_type params s = sink event_type message s"
  by (simp add: send_event_def)

theorem send_event_whitelisted_witness:
  "PLAYER_JOIN \<in> whitelist (load module_heap (NotificationHandler_init (Some ''Box'') None None)) \<and>
   formats (load module_heap (NotificationHandler_init (Some ''Box'') None None)) PLAYER_JOIN =
     Some ''[{name}] Player '{player}' joined the game'' \<and>
   send_event no_object_protocol recording_sink
     (load module_heap (NotificationHandler_init (Some ''Box'') None None))
     PLAYER_JOIN (no_params(''player'' \<mapsto> ''Ann'')) [] =
   Returned [(PLAYER_JOIN, ''[Box] Player 'Ann' joined the game'')] \<and>
   send_event no_object_protocol recording_sink
     (load module_heap (NotificationHandler_init (Some ''Box'') None None))
     PLAYER_JOIN (no_params(''player'' \<mapsto> ''Ann'', ''name'' \<mapsto> ''Other'')) [] =
   Returned [(PLAYER_JOIN, ''[Box] Player 'Ann' joined the game'')] \<and>
   EventType_value PLAYER_JOIN = ''player_join''"
proof -
  let ?h = "\<lparr>name = ''Box'', whitelist = UNIV, formats = DEFAULT_EVENT_FORMATS\<rparr>"
  let ?T = "''[{name}] Player '{player}' joined the game''"
  have w: "PLAYER_JOIN \<in> whitelist ?h" by simp
  have f: "formats ?h PLAYER_JOIN = Some ?T"
    by (simp add: DEFAULT_EVENT_FORMATS_def)
  have m1: "safeformat no_object_protocol ?T
      ((no_params(''player'' \<mapsto> ''Ann''))(''name'' \<mapsto> name ?h)) =
      Inr ''[Box] Player 'Ann' joined the game''"
    using format_PLAYER_JOIN [of no_object_protocol] by simp
  have m2: "safeformat no_object_protocol ?T
      ((no_params(''player'' \<mapsto> ''Ann'', ''name'' \<mapsto> ''Other''))(''name'' \<mapsto> name ?h)) =
      Inr ''[Box] Player 'Ann' joined the game''"
    using format_PLAYER_JOIN [of no_object_protocol] by simp
  show ?thesis
    using send_event_whitelisted [OF w f m1, of recording_sink "[]"]
      send_event_whitelisted [OF w f m2, of recording_sink "[]"] w f
    by (simp add: default_handler recording_sink_def)
qed

subsection \<open>\<^verbatim>\<open>NotificationManager\<close>\<close>

lemma for_handlers_logged_returns:
  "\<forall>h \<in> set hs. \<forall>s. \<exists>s'. hsend h event_type params s = Returned s' \<Longrightarrow>
   \<exists>s'. for_handlers (logged hsend) hs event_type params (log, s) = Returned (log @ hs, s') \<and>
        for_handlers hsend hs event_type params s = Returned s'"
proof (induction hs arbitrary: log s)
  case Nil
  show ?case by simp
next
  case (Cons h hs)
  from Cons.prems obtain s1 where s1: "hsend h event_type params s = Returned s1"
    by (meson list.set_intros(1))
  from Cons.prems have "\<forall>h \<in> set hs. \<forall>s. \<exists>s'. hsend h event_type params s = Returned s'"
    by simp
  from Cons.IH [OF this, of "log @ [h]" s1] s1 show ?case
    by (simp add: logged_def)
qed

lemma for_handlers_logged_raises:
  "for_handlers hsend pre event_type params s = Returned s1 \<Longrightarrow>
   hsend h event_type params s1 = Raised e s2 \<Longrightarrow>
   for_handlers (logged hsend) (pre @ h # post) event_type params (log, s) =
     Raised e (log @ pre @ [h], s2) \<and>
   for_handlers hsend (pre @ h # post) event_type params s = Raised e s2"
proof (induction pre arbitrary: log s)
  case Nil
  then show ?case by (simp add: logged_def)
next
  case (Cons g pre)
  from Cons.prems(1) obtain s' where g: "hsend g event_type params s = Returned s'"
    and r: "for_handlers hsend pre event_type params s' = Returned s1"
    by (auto split: outcome.splits)
  from Cons.IH [OF r Cons.prems(2), of "log @ [g]"] g show ?case
    by (simp add: logged_def)
qed

text \<open>
  C8. \<^verbatim>\<open>add_handler\<close> appends the handler at the end, also when it is already there;
  \<^verbatim>\<open>clear\<close> empties the list; and \<^verbatim>\<open>send_event\<close>, when the handlers return, has called each
  registered handler once, in the order of registration, and returns.
\<close>

theorem manager_broadcast_order:
  "handlers (add_handler self h) = handlers self @ [h] \<and>
   handlers (add_handler (add_handler (add_handler NotificationManager_init h1) h2) h3) = [h1, h2, h3] \<and>
   handlers (add_handler (add_handler self h) h) = handlers self @ [h, h] \<and>
   handlers (clear self) = [] \<and>
   ((\<forall>h \<in> set (handlers self). \<forall>s. \<exists>s'. hsend h event_type params s = Returned s') \<longrightarrow>
    (\<exists>s'. NotificationManager_send_event (logged hsend) self event_type params ([], s) =
            Returned (handlers self, s') \<and>
          NotificationManager_send_event hsend self event_type params s = Returned s'))"
  using for_handlers_logged_returns [of "handlers self" hsend event_type params "[]" s]
  by (simp add: add_handler_def clear_def NotificationManager_init_def
      NotificationManager_send_event_def)

theorem manager_broadcast_order_witness:
  "NotificationManager_send_event (logged (send_event no_object_protocol recording_sink))
     (add_handler (add_handler (add_handler NotificationManager_init
        \<lparr>name = ''H1'', whitelist = UNIV, formats = DEFAULT_EVENT_FORMATS\<rparr>)
        \<lparr>name = ''H2'', whitelist = UNIV, formats = DEFAULT_EVENT_FORMATS\<rparr>)
        \<lparr>name = ''H3'', whitelist = UNIV, formats = DEFAULT_EVENT_FORMATS\<rparr>)
     START no_params ([], []) =
   Returned
     ([\<lparr>name = ''H1'', whitelist = UNIV, formats = DEFAULT_EVENT_FORMATS\<rparr>,
       \<lparr>name = ''H2'', whitelist = UNIV, formats = DEFAULT_EVENT_FORMATS\<rparr>,
       \<lparr>name = ''H3'', whitelist = UNIV, formats = DEFAULT_EVENT_FORMATS\<rparr>],
      [(START, ''[H1] Server started!''), (START, ''[H2] Server started!''),
       (START, ''[H3] Server started!'')])"
proof -
  let ?send = "send_event no_object_protocol recording_sink"
  let ?h1 = "\<lparr>name = ''H1'', whitelist = UNIV, formats = DEFAULT_EVENT_FORMATS\<rparr>"
  let ?h2 = "\<lparr>name = ''H2'', whitelist = UNIV, formats = DEFAULT_EVENT_FORMATS\<rparr>"
  let ?h3 = "\<lparr>name = ''H3'', whitelist = UNIV, formats = DEFAULT_EVENT_FORMATS\<rparr>"
  let ?m = "add_handler (add_handler (add_handler NotificationManager_init ?h1) ?h2) ?h3"
  have f: "safeformat no_object_protocol ''[{name}] Server started!'' (no_params(''name'' \<mapsto> n)) =
      Inr (''['' @ n @ ''] Server started!'')" for n
  proof -
    have "safeformat no_object_protocol ''[{name}] Server started!'' (no_params(''name'' \<mapsto> n)) =
        Inr (expand (no_params(''name'' \<mapsto> n)) [Lit ''['', Field ''name'', Lit ''] Server started!''])"
      using safeformat_plain
        [where items = "[Lit ''['', Field ''name'', Lit ''] Server started!'']"
           and P = "no_params(''name'' \<mapsto> n)" and R = no_object_protocol]
      by (simp add: template_of_def escape_braces_def valid_key_def plain_char_def is_digit_def
          no_params_def)
    then show ?thesis
      by (simp add: expand_def)
  qed
  have c: "DEFAULT_EVENT_FORMATS START = Some ''[{name}] Server started!''"
    by (simp add: DEFAULT_EVENT_FORMATS_def)
  have s: "?send \<lparr>name = n, whitelist = UNIV, formats = DEFAULT_EVENT_FORMATS\<rparr> START no_params s =
      Returned (s @ [(START, ''['' @ n @ ''] Server started!'')])" for n s
    by (simp add: send_event_def c f recording_sink_def)
  have h: "handlers ?m = [?h1, ?h2, ?h3]"
    by (simp add: add_handler_def NotificationManager_init_def)
  have r: "\<forall>h \<in> set (handlers ?m). \<forall>s. \<exists>s'. ?send h START no_params s = Returned s'"
    unfolding h by (simp add: s)
  have u: "NotificationManager_send_event ?send ?m START no_params [] =
      Returned [(START, ''[H1] Server started!''), (START, ''[H2] Server started!''),
        (START, ''[H3] Server started!'')]"
    unfolding NotificationManager_send_event_def h by (simp add: s)
  from manager_broadcast_order
    [where self = ?m and hsend = ?send and event_type = START and params = no_params and s = "[]",
      THEN conjunct2, THEN conjunct2, THEN conjunct2, THEN conjunct2, THEN mp, OF r]
  obtain s' where l: "NotificationManager_send_event (logged ?send) ?m START no_params ([], []) =
      Returned (handlers ?m, s')"
    and "NotificationManager_send_event ?send ?m START no_params [] = Returned s'"
    by blast
  with u have "s' = [(START, ''[H1] Server started!''), (START, ''[H2] Server started!''),
        (START, ''[H3] Server started!'')]"
    by (simp only: outcome.inject)
  with l show ?thesis
    by (simp only: h)
qed

text \<open>
  C9. When the handlers before one have returned and that one raises, the manager's
  \<^verbatim>\<open>send_event\<close> raises the same exception to its caller; the handlers before it and the
  failing one have been called, in order, and no handler after it is called.
\<close>

theorem manager_error_propagates:
  "NotificationManager_send_event hsend \<lparr>handlers = pre\<rparr> event_type params s = Returned s1 \<Longrightarrow>
   hsend h event_type params s1 = Raised e s2 \<Longrightarrow>
   NotificationManager_send_event (logged hsend) \<lparr>handlers = pre @ h # post\<rparr> event_type params ([], s) =
     Raised e (pre @ [h], s2) \<and>
   NotificationManager_send_event hsend \<lparr>handlers = pre @ h # post\<rparr> event_type params s = Raised e s2"
  using for_handlers_logged_raises [of hsend pre event_type params s s1 h e s2 post "[]"]
  by (simp add: NotificationManager_send_event_def)

theorem manager_error_propagates_witness:
  "NotificationManager_send_event (logged (send_event no_object_protocol recording_sink))
     \<lparr>handlers =
        [\<lparr>name = ''H1'', whitelist = UNIV, formats = DEFAULT_EVENT_FORMATS\<rparr>] @
        \<lparr>name = ''H2'', whitelist = UNIV, formats = DEFAULT_EVENT_FORMATS(CRASH := None)\<rparr> #
        [\<lparr>name = ''H3'', whitelist = UNIV, formats = DEFAULT_EVENT_FORMATS\<rparr>]\<rparr>
     CRASH no_params ([], []) =
   Raised KeyError
     ([\<lparr>name = ''H1'', whitelist = UNIV, formats = DEFAULT_EVENT_FORMATS\<rparr>,
       \<lparr>name = ''H2'', whitelist = UNIV, formats = DEFAULT_EVENT_FORMATS(CRASH := None)\<rparr>],
      [(CRASH, ''[H1] Server crashed!'')])"
proof -
  let ?send = "send_event no_object_protocol recording_sink"
  let ?h1 = "\<lparr>name = ''H1'', whitelist = UNIV, formats = DEFAULT_EVENT_FORMATS\<rparr>"
  let ?h2 = "\<lparr>name = ''H2'', whitelist = UNIV, formats = DEFAULT_EVENT_FORMATS(CRASH := None)\<rparr>"
  let ?h3 = "\<lparr>name = ''H3'', whitelist = UNIV, formats = DEFAULT_EVENT_FORMATS\<rparr>"
  have f: "safeformat no_object_protocol ''[{name}] Server crashed!'' (no_params(''name'' \<mapsto> ''H1'')) =
      Inr ''[H1] Server crashed!''"
    by (simp add: safeformat_def format_map_def emit_def render_field_def
        field_first_def field_rest_def is_digit_def SafeDict_getitem_def no_params_def)
  have c: "DEFAULT_EVENT_FORMATS CRASH = Some ''[{name}] Server crashed!''"
    by (simp add: DEFAULT_EVENT_FORMATS_def)
  have a1: "?send ?h1 CRASH no_params [] = Returned [(CRASH, ''[H1] Server crashed!'')]"
    by (simp add: send_event_def c f recording_sink_def)
  have a: "NotificationManager_send_event ?send \<lparr>handlers = [?h1]\<rparr> CRASH no_params [] =
      Returned [(CRASH, ''[H1] Server crashed!'')]"
    by (simp add: NotificationManager_send_event_def a1)
  have b: "?send ?h2 CRASH no_params [(CRASH, ''[H1] Server crashed!'')] =
      Raised KeyError [(CRASH, ''[H1] Server crashed!'')]"
    by (simp add: send_event_def)
  have "NotificationManager_send_event (logged ?send) \<lparr>handlers = [?h1] @ ?h2 # [?h3]\<rparr>
      CRASH no_params ([], []) = Raised KeyError ([?h1] @ [?h2], [(CRASH, ''[H1] Server crashed!'')])"
    by (rule conjunct1 [OF manager_error_propagates
          [where hsend = ?send and pre = "[?h1]" and h = ?h2 and post = "[?h3]", OF a b]])
  then show ?thesis
    by (simp only: append_Cons append_Nil)
qed

subsection \<open>Default arguments\<close>

text \<open>
  C10, as stated, fails between the two classes: the default whitelist of
  \<^verbatim>\<open>QueuedNotificationHandler.__init__\<close> is another set than the one of
  \<^verbatim>\<open>NotificationHandler.__init__\<close>, so an event type discarded from the whitelist of a
  default \<^verbatim>\<open>NotificationHandler\<close> is still in the whitelist of a default
  \<^verbatim>\<open>QueuedNotificationHandler\<close>.
\<close>

theorem default_whitelist_two_classes_counterexample:
  "whitelist_ref (NotificationHandler_init None None None) \<noteq>
     whitelist_ref (QueuedNotificationHandler_init None None None) \<and>
   START \<notin> whitelist
     (load (set_discard (whitelist_ref (NotificationHandler_init None None None)) START module_heap)
        (NotificationHandler_init None None None)) \<and>
   START \<in> whitelist
     (load (set_discard (whitelist_ref (NotificationHandler_init None None None)) START module_heap)
        (QueuedNotificationHandler_init None None None))"
  by (simp add: load_def module_heap_def NotificationHandler_init_def
      QueuedNotificationHandler_init_def default_whitelist_UNIV set_discard_def
      NotificationHandler_default_whitelist_def
      QueuedNotificationHandler_default_whitelist_def)

text \<open>
  C10, amended. The default arguments are evaluated once for each of the two constructors.
  Every \<^verbatim>\<open>NotificationHandler\<close> constructed with the default whitelist references one shared
  set, and every \<^verbatim>\<open>QueuedNotificationHandler\<close> constructed with the default whitelist one
  shared set of its class, each holding all event types; every handler of either class
  constructed with the default formats references the one dict \<^verbatim>\<open>DEFAULT_EVENT_FORMATS\<close>.
  A mutation of a default whitelist through one handler is observed by every handler of
  the same class that has the default whitelist, and a mutation of the default formats by
  every handler of either class that has the default formats.
\<close>

theorem default_arguments_shared:
  "whitelist_ref (NotificationHandler_init n1 None f1) = whitelist_ref (NotificationHandler_init n2 None f2) \<and>
   whitelist_ref (QueuedNotificationHandler_init n1 None f1) =
     whitelist_ref (QueuedNotificationHandler_init n2 None f2) \<and>
   formats_ref (NotificationHandler_init n1 w1 None) = formats_ref (NotificationHandler_init n2 w2 None) \<and>
   formats_ref (NotificationHandler_init n1 w1 None) = formats_ref (QueuedNotificationHandler_init n2 w2 None) \<and>
   whitelist (load module_heap (NotificationHandler_init n1 None f1)) = UNIV \<and>
   whitelist (load module_heap (QueuedNotificationHandler_init n1 None f1)) = UNIV \<and>
   formats (load module_heap (NotificationHandler_init n1 w1 None)) = DEFAULT_EVENT_FORMATS \<and>
   formats (load module_heap (QueuedNotificationHandler_init n1 w1 None)) = DEFAULT_EVENT_FORMATS \<and>
   whitelist (load (set_discard (whitelist_ref (NotificationHandler_init n1 None f1)) e h)
       (NotificationHandler_init n2 None f2)) =
     whitelist (load h (NotificationHandler_init n2 None f2)) - {e} \<and>
   whitelist (load (set_discard (whitelist_ref (QueuedNotificationHandler_init n1 None f1)) e h)
       (QueuedNotificationHandler_init n2 None f2)) =
     whitelist (load h (QueuedNotificationHandler_init n2 None f2)) - {e} \<and>
   formats (load (dict_setitem (formats_ref (NotificationHandler_init n1 w1 None)) e t h)
       (NotificationHandler_init n2 w2 None)) =
     (formats (load h (NotificationHandler_init n2 w2 None)))(e \<mapsto> t) \<and>
   formats (load (dict_setitem (formats_ref (NotificationHandler_init n1 w1 None)) e t h)
       (QueuedNotificationHandler_init n2 w2 None)) =
     (formats (load h (QueuedNotificationHandler_init n2 w2 None)))(e \<mapsto> t)"
  by (simp add: load_def module_heap_def NotificationHandler_init_def
      QueuedNotificationHandler_init_def default_whitelist_UNIV set_discard_def dict_setitem_def
      DEFAULT_EVENT_FORMATS_ref_def NotificationHandler_default_whitelist_def
      QueuedNotificationHandler_default_whitelist_def)

end
